theory Spec2Isabelle
  imports Complex_Main
begin

section \<open>The scalar type\<close>

text \<open>
  The library computes with the C++ type \<open>float\<close>. The data types and the operations
  below are polymorphic in the scalar type \<open>'a\<close>; every operation asks only for the
  arithmetic it uses (\<open>plus\<close>, \<open>times\<close>, ...). A theorem stated for every such \<open>'a\<close>
  uses no law of arithmetic, so it holds for floats as for exact numbers. A theorem about
  exact arithmetic fixes \<open>'a\<close> to a ring or a field; \<open>rotate\<close>, which calls
  \<open>std::cos\<close> and \<open>std::sin\<close>, is over \<open>real\<close>. The arithmetic of floats itself
  is modelled further down, as the type \<open>float32\<close>.
\<close>

section \<open>Vectors (vec3.h, vec4.h)\<close>

text \<open>
  Modelled from the spec: the headers vec3.h and vec4.h are not among the sources. The
  spec (section 6) lists what mat4.h consumes of them: the component constructors, the
  components \<open>x\<close>, \<open>y\<close>, \<open>z\<close> (and \<open>w\<close>), addition, subtraction and multiplication by a
  scalar, \<open>dot\<close> and \<open>cross\<close>. The components are named \<open>x3\<close>, ... and \<open>x4\<close>, ... here.
\<close>

datatype 'a vec3 = Vec3 (x3: 'a) (y3: 'a) (z3: 'a)

datatype 'a vec4 = Vec4 (x4: 'a) (y4: 'a) (z4: 'a) (w4: 'a)

definition vec3_add :: "'a::plus vec3 \<Rightarrow> 'a vec3 \<Rightarrow> 'a vec3" where
  "vec3_add a b = Vec3 (x3 a + x3 b) (y3 a + y3 b) (z3 a + z3 b)"

definition vec3_sub :: "'a::minus vec3 \<Rightarrow> 'a vec3 \<Rightarrow> 'a vec3" where
  "vec3_sub a b = Vec3 (x3 a - x3 b) (y3 a - y3 b) (z3 a - z3 b)"

definition vec3_scale :: "'a::times vec3 \<Rightarrow> 'a \<Rightarrow> 'a vec3" where
  "vec3_scale a k = Vec3 (x3 a * k) (y3 a * k) (z3 a * k)"

definition dot :: "'a::{plus,times} vec3 \<Rightarrow> 'a vec3 \<Rightarrow> 'a" where
  "dot a b = x3 a * x3 b + y3 a * y3 b + z3 a * z3 b"

definition cross :: "'a::{minus,times} vec3 \<Rightarrow> 'a vec3 \<Rightarrow> 'a vec3" where
  "cross a b =
     Vec3 (y3 a * z3 b - z3 a * y3 b)
          (z3 a * x3 b - x3 a * z3 b)
          (x3 a * y3 b - y3 a * x3 b)"

section \<open>The matrix type (struct mat4)\<close>

text \<open>
  \<open>float m[4][4]\<close>, row-major: \<open>Mat4 m00 m01 m02 m03 m10 ... m33\<close>.

  Modelled from the spec: mat4.h declares the four constructors and documents them, but
  their bodies are not among the sources. \<open>Mat4\<close> itself is the constructor from 16
  scalars ("fills rows in the order m00..m03, m10..m13, m20..m23, m30..m33"),
  \<open>mat4_identity\<close> is the default constructor ("Constructs an identity matrix") and
  \<open>mat4_rows\<close> the constructor from four row vectors ("each argument vector becomes one
  row").
\<close>

datatype 'a mat4 =
  Mat4 (m00: 'a) (m01: 'a) (m02: 'a) (m03: 'a)
       (m10: 'a) (m11: 'a) (m12: 'a) (m13: 'a)
       (m20: 'a) (m21: 'a) (m22: 'a) (m23: 'a)
       (m30: 'a) (m31: 'a) (m32: 'a) (m33: 'a)

definition mat4_identity :: "'a::{zero,one} mat4" where
  "mat4_identity = Mat4 1 0 0 0  0 1 0 0  0 0 1 0  0 0 0 1"

definition mat4_rows :: "'a vec4 \<Rightarrow> 'a vec4 \<Rightarrow> 'a vec4 \<Rightarrow> 'a vec4 \<Rightarrow> 'a mat4" where
  "mat4_rows row1 row2 row3 row4 =
     Mat4 (x4 row1) (y4 row1) (z4 row1) (w4 row1)
          (x4 row2) (y4 row2) (z4 row2) (w4 row2)
          (x4 row3) (y4 row3) (z4 row3) (w4 row3)
          (x4 row4) (y4 row4) (z4 row4) (w4 row4)"

text \<open>The 16 floats of \<open>m\<close> as they lie in memory, row after row.\<close>

definition elems :: "'a mat4 \<Rightarrow> 'a list" where
  "elems M =
     [m00 M, m01 M, m02 M, m03 M, m10 M, m11 M, m12 M, m13 M,
      m20 M, m21 M, m22 M, m23 M, m30 M, m31 M, m32 M, m33 M]"

text \<open>
  \<open>operator()(i, j)\<close> returns \<open>m[i][j]\<close> and checks nothing: an index outside 0..3 is
  undefined behaviour in the source, and an unspecified value here.
\<close>

definition elem :: "'a mat4 \<Rightarrow> nat \<Rightarrow> nat \<Rightarrow> 'a" where
  "elem M i j = (if i < 4 \<and> j < 4 then elems M ! (4 * i + j) else undefined)"

definition determinant :: "'a::{plus,minus,times} mat4 \<Rightarrow> 'a" where
  "determinant M =
    (let a0 = elem M 0 0 * elem M 1 1 - elem M 0 1 * elem M 1 0;
         a1 = elem M 0 0 * elem M 1 2 - elem M 0 2 * elem M 1 0;
         a2 = elem M 0 0 * elem M 1 3 - elem M 0 3 * elem M 1 0;
         a3 = elem M 0 1 * elem M 1 2 - elem M 0 2 * elem M 1 1;
         a4 = elem M 0 1 * elem M 1 3 - elem M 0 3 * elem M 1 1;
         a5 = elem M 0 2 * elem M 1 3 - elem M 0 3 * elem M 1 2;
         b0 = elem M 2 0 * elem M 3 1 - elem M 2 1 * elem M 3 0;
         b1 = elem M 2 0 * elem M 3 2 - elem M 2 2 * elem M 3 0;
         b2 = elem M 2 0 * elem M 3 3 - elem M 2 3 * elem M 3 0;
         b3 = elem M 2 1 * elem M 3 2 - elem M 2 2 * elem M 3 1;
         b4 = elem M 2 1 * elem M 3 3 - elem M 2 3 * elem M 3 1;
         b5 = elem M 2 2 * elem M 3 3 - elem M 2 3 * elem M 3 2
     in a0 * b5 - a1 * b4 + a2 * b3 + a3 * b2 - a4 * b1 + a5 * b0)"

definition GetRow :: "'a mat4 \<Rightarrow> nat \<Rightarrow> 'a vec4" where
  "GetRow M index = Vec4 (elem M index 0) (elem M index 1) (elem M index 2) (elem M index 3)"

section \<open>Matrix product (operator*)\<close>

text \<open>
  The three nested loops, each over 0..3, write the buffer \<open>float p[16]\<close>. The buffer
  starts uninitialised in the source; the loops take its first contents as \<open>p\<close>, and
  \<open>mat4_times\<close> starts them on zeros. Every slot is overwritten (lemma
  \<open>product_buffer_filled\<close>), so the first contents do not reach the result.
\<close>

definition product_sum :: "'a::{zero,plus,times} mat4 \<Rightarrow> 'a mat4 \<Rightarrow> nat \<Rightarrow> nat \<Rightarrow> 'a" where
  "product_sum mat1 mat2 row col =
     fold (\<lambda>i sum. sum + elem mat1 row i * elem mat2 i col) [0..<4] 0"

definition product_col :: "'a::{zero,plus,times} mat4 \<Rightarrow> 'a mat4 \<Rightarrow> nat \<Rightarrow> 'a list \<Rightarrow> 'a list" where
  "product_col mat1 mat2 col p =
     fold (\<lambda>row p. p[col + row * 4 := product_sum mat1 mat2 row col]) [0..<4] p"

definition product_buffer :: "'a::{zero,plus,times} mat4 \<Rightarrow> 'a mat4 \<Rightarrow> 'a list \<Rightarrow> 'a list" where
  "product_buffer mat1 mat2 p = fold (product_col mat1 mat2) [0..<4] p"

definition mat4_of_buffer :: "'a list \<Rightarrow> 'a mat4" where
  "mat4_of_buffer p =
     Mat4 (p ! 0) (p ! 1) (p ! 2) (p ! 3)
          (p ! 4) (p ! 5) (p ! 6) (p ! 7)
          (p ! 8) (p ! 9) (p ! 10) (p ! 11)
          (p ! 12) (p ! 13) (p ! 14) (p ! 15)"

definition mat4_times :: "'a::{zero,plus,times} mat4 \<Rightarrow> 'a mat4 \<Rightarrow> 'a mat4" where
  "mat4_times mat1 mat2 = mat4_of_buffer (product_buffer mat1 mat2 (replicate 16 0))"

section \<open>Invertibility and inverse\<close>

text \<open>
  \<open>TOLERANCE\<close> is a constant of mathbase.h, which is not among the sources: it is a
  parameter here. The compound assignments \<open>s *= invDet\<close>, ... bind the name again.
\<close>

definition canBeInverse :: "'a::{abs,ord,plus,minus,times} \<Rightarrow> 'a mat4 \<Rightarrow> bool" where
  "canBeInverse TOLERANCE mat = (\<not> (\<bar>determinant mat\<bar> \<le> TOLERANCE))"

definition inverse_mat4 ::
  "'a::{abs,ord,zero,one,plus,minus,uminus,times,inverse} \<Rightarrow> 'a mat4 \<Rightarrow> 'a mat4" where
  "inverse_mat4 TOLERANCE mat =
    (if \<bar>determinant mat\<bar> \<le> TOLERANCE then mat4_identity
     else
      let a = Vec3 (elem mat 0 0) (elem mat 1 0) (elem mat 2 0);
          b = Vec3 (elem mat 0 1) (elem mat 1 1) (elem mat 2 1);
          c = Vec3 (elem mat 0 2) (elem mat 1 2) (elem mat 2 2);
          d = Vec3 (elem mat 0 3) (elem mat 1 3) (elem mat 2 3);
          x = elem mat 3 0;
          y = elem mat 3 1;
          z = elem mat 3 2;
          w = elem mat 3 3;
          s = cross a b;
          t = cross c d;
          u = vec3_sub (vec3_scale a y) (vec3_scale b x);
          v = vec3_sub (vec3_scale c w) (vec3_scale d z);
          invDet = 1 / (dot s v + dot t u);
          s = vec3_scale s invDet;
          t = vec3_scale t invDet;
          u = vec3_scale u invDet;
          v = vec3_scale v invDet;
          r0 = vec3_add (cross b v) (vec3_scale t y);
          r1 = vec3_sub (cross v a) (vec3_scale t x);
          r2 = vec3_add (cross d u) (vec3_scale s w);
          r3 = vec3_sub (cross u c) (vec3_scale s z)
      in Mat4 (x3 r0) (y3 r0) (z3 r0) (- dot b t)
              (x3 r1) (y3 r1) (z3 r1) (dot a t)
              (x3 r2) (y3 r2) (z3 r2) (- dot d s)
              (x3 r3) (y3 r3) (z3 r3) (dot c s))"

section \<open>Transpose and the transform builders\<close>

definition transpose_mat4 :: "'a mat4 \<Rightarrow> 'a mat4" where
  "transpose_mat4 mat =
     mat4_rows (Vec4 (elem mat 0 0) (elem mat 1 0) (elem mat 2 0) (elem mat 3 0))
               (Vec4 (elem mat 0 1) (elem mat 1 1) (elem mat 2 1) (elem mat 3 1))
               (Vec4 (elem mat 0 2) (elem mat 1 2) (elem mat 2 2) (elem mat 3 2))
               (Vec4 (elem mat 0 3) (elem mat 1 3) (elem mat 2 3) (elem mat 3 3))"

text \<open>
  \<open>translate\<close> copies row 3 and adds to its \<open>x\<close>, \<open>y\<close>, \<open>z\<close> in turn (\<open>+=\<close>): each
  assignment binds \<open>translationRow\<close> again.
\<close>

definition translate :: "'a::plus mat4 \<Rightarrow> 'a vec3 \<Rightarrow> 'a mat4" where
  "translate mat translation =
    (let translationRow = GetRow mat 3;
         translationRow = Vec4 (x4 translationRow + x3 translation) (y4 translationRow)
                               (z4 translationRow) (w4 translationRow);
         translationRow = Vec4 (x4 translationRow) (y4 translationRow + y3 translation)
                               (z4 translationRow) (w4 translationRow);
         translationRow = Vec4 (x4 translationRow) (y4 translationRow)
                               (z4 translationRow + z3 translation) (w4 translationRow)
     in mat4_rows (GetRow mat 0) (GetRow mat 1) (GetRow mat 2) translationRow)"

text \<open>
  In \<open>rotate\<close> the locals \<open>cos\<close> and \<open>sin\<close> hold \<open>std::cos(angle)\<close> and
  \<open>std::sin(angle)\<close>, here the cosine and the sine of the real number \<open>angle\<close>. The
  axis is used as it is passed: the function does not normalise it.
\<close>

definition rotate :: "real mat4 \<Rightarrow> real \<Rightarrow> real vec3 \<Rightarrow> real mat4" where
  "rotate mat angle axis =
    (let cos = cos angle;
         sin = sin angle;
         d = 1 - cos;
         x = x3 axis * d;
         y = y3 axis * d;
         z = z3 axis * d;
         axay = x * y3 axis;
         axaz = x * y3 axis;
         ayaz = y * z3 axis
     in Mat4 (cos + x * x3 axis) (axay - sin * z3 axis) (axaz + sin * y3 axis) (elem mat 0 3)
             (axay + sin * z3 axis) (cos + y * y3 axis) (ayaz - sin * x3 axis) (elem mat 1 3)
             (axaz - sin * y3 axis) (ayaz + sin * x3 axis) (cos + z * z3 axis) (elem mat 2 3)
             (elem mat 3 0) (elem mat 3 1) (elem mat 3 2) (elem mat 3 3))"

section \<open>The determinant as mathematics defines it\<close>

text \<open>
  The spec calls the value of \<open>determinant\<close> "the exact general 4x4 determinant". The
  definition below follows these words, not the source: the Leibniz formula, the sum
  over all permutations \<open>p\<close> of the columns 0..3 of the signed products
  \<open>M(0, p 0) * M(1, p 1) * M(2, p 2) * M(3, p 3)\<close>. A permutation is the list of its
  values, its sign the parity of the number of its inversions.
\<close>

fun interleave :: "'a \<Rightarrow> 'a list \<Rightarrow> 'a list list" where
  "interleave x [] = [[x]]"
| "interleave x (y # ys) = (x # y # ys) # map ((#) y) (interleave x ys)"

fun permutations :: "'a list \<Rightarrow> 'a list list" where
  "permutations [] = [[]]"
| "permutations (x # xs) = concat (map (interleave x) (permutations xs))"

definition inversions :: "nat list \<Rightarrow> nat" where
  "inversions p =
     length (filter (\<lambda>(i, j). i < j \<and> p ! j < p ! i)
               (List.product [0..<length p] [0..<length p]))"

definition perm_sign :: "nat list \<Rightarrow> 'a::comm_ring_1" where
  "perm_sign p = (if even (inversions p) then 1 else - 1)"

definition leibniz_determinant :: "'a::comm_ring_1 mat4 \<Rightarrow> 'a" where
  "leibniz_determinant M =
     (\<Sum>p \<leftarrow> permutations [0, 1, 2, 3].
        perm_sign p * (\<Prod>i \<leftarrow> [0..<4]. elem M i (p ! i)))"

section \<open>The two halves of the inverse\<close>

text \<open>
  The branch of \<open>inverse\<close> behind the tolerance test first computes the divisor
  \<open>dot(s, v) + dot(t, u)\<close> and then builds the result from \<open>invDet\<close>. The two
  definitions below cut that branch at \<open>invDet\<close>: \<open>inverse_divisor\<close> is the divisor,
  \<open>inverse_with invDet\<close> the rest of the branch for a given \<open>invDet\<close>. Lemma
  \<open>inverse_mat4_branches\<close> puts them together again.
\<close>

definition inverse_divisor :: "'a::{plus,minus,times} mat4 \<Rightarrow> 'a" where
  "inverse_divisor mat =
     (let a = Vec3 (elem mat 0 0) (elem mat 1 0) (elem mat 2 0);
          b = Vec3 (elem mat 0 1) (elem mat 1 1) (elem mat 2 1);
          c = Vec3 (elem mat 0 2) (elem mat 1 2) (elem mat 2 2);
          d = Vec3 (elem mat 0 3) (elem mat 1 3) (elem mat 2 3);
          x = elem mat 3 0;
          y = elem mat 3 1;
          z = elem mat 3 2;
          w = elem mat 3 3;
          s = cross a b;
          t = cross c d;
          u = vec3_sub (vec3_scale a y) (vec3_scale b x);
          v = vec3_sub (vec3_scale c w) (vec3_scale d z)
      in dot s v + dot t u)"

definition inverse_with :: "'a::{plus,minus,uminus,times} \<Rightarrow> 'a mat4 \<Rightarrow> 'a mat4" where
  "inverse_with invDet mat =
     (let a = Vec3 (elem mat 0 0) (elem mat 1 0) (elem mat 2 0);
          b = Vec3 (elem mat 0 1) (elem mat 1 1) (elem mat 2 1);
          c = Vec3 (elem mat 0 2) (elem mat 1 2) (elem mat 2 2);
          d = Vec3 (elem mat 0 3) (elem mat 1 3) (elem mat 2 3);
          x = elem mat 3 0;
          y = elem mat 3 1;
          z = elem mat 3 2;
          w = elem mat 3 3;
          s = cross a b;
          t = cross c d;
          u = vec3_sub (vec3_scale a y) (vec3_scale b x);
          v = vec3_sub (vec3_scale c w) (vec3_scale d z);
          s = vec3_scale s invDet;
          t = vec3_scale t invDet;
          u = vec3_scale u invDet;
          v = vec3_scale v invDet;
          r0 = vec3_add (cross b v) (vec3_scale t y);
          r1 = vec3_sub (cross v a) (vec3_scale t x);
          r2 = vec3_add (cross d u) (vec3_scale s w);
          r3 = vec3_sub (cross u c) (vec3_scale s z)
      in Mat4 (x3 r0) (y3 r0) (z3 r0) (- dot b t)
              (x3 r1) (y3 r1) (z3 r1) (dot a t)
              (x3 r2) (y3 r2) (z3 r2) (- dot d s)
              (x3 r3) (y3 r3) (z3 r3) (dot c s))"

section \<open>Concrete matrices used as examples\<close>

definition example_matrix :: "real mat4" where
  "example_matrix = Mat4 1 2 3 4  0 1 5 7  2 0 1 3  1 1 0 2"

definition zero_matrix :: "real mat4" where
  "zero_matrix = Mat4 0 0 0 0  0 0 0 0  0 0 0 0  0 0 0 0"

section \<open>Arithmetic of the C++ type float\<close>

text \<open>
  On the platforms the library is written for, \<open>float\<close> is the IEEE 754 binary32 format,
  and each of \<open>+\<close>, \<open>-\<close>, \<open>*\<close>, \<open>/\<close> rounds its exact result to the nearest value of
  the format, a tie to the one with an even significand (no operation is fused with
  another). Every finite binary32 value is an integer multiple of \<open>2^-149\<close>, the
  smallest subnormal: \<open>Finite n\<close> stands for \<open>n * 2^-149\<close>, and \<open>Finite 0\<close> is the
  zero of positive sign, \<open>NegZero\<close> the zero of negative sign. The values of the format
  are the \<open>n\<close> of at most 24 significant bits below \<open>2^277\<close> in magnitude
  (\<open>is_float32\<close>); the largest is \<open>(2^24 - 1) * 2^253\<close>, and a result that rounds to
  \<open>2^277\<close> or beyond is an infinity.
\<close>

datatype float32 = Finite int | NegZero | PlusInfinity | MinusInfinity | NaN

text \<open>The number of bits of a positive integer.\<close>

function bit_length :: "int \<Rightarrow> nat" where
  "bit_length n = (if n \<le> 0 then 0 else Suc (bit_length (n div 2)))"
  by pat_completeness auto
termination
  by (relation "measure nat") auto

declare bit_length.simps [simp del]

text \<open>Rounding an integer to 24 significant bits, to nearest, a tie to even.\<close>

definition round24 :: "int \<Rightarrow> int" where
  "round24 n =
    (if bit_length \<bar>n\<bar> \<le> 24 then n
     else
      let d = 2 ^ (bit_length \<bar>n\<bar> - 24);
          q = n div d;
          r = n mod d
      in (if 2 * r < d then q else if d < 2 * r then q + 1
          else if even q then q else q + 1) * d)"

definition float32_round :: "int \<Rightarrow> float32" where
  "float32_round n =
    (let r = round24 n
     in if 2 ^ 277 \<le> r then PlusInfinity
        else if r \<le> - (2 ^ 277) then MinusInfinity
        else Finite r)"

text \<open>
  Products and quotients are not whole numbers of units. \<open>round_magnitude num den\<close>
  rounds the positive fraction \<open>num / den\<close> of a unit in the same way: below \<open>2^24\<close>
  to a whole number, above to 24 significant bits. \<open>float32_of_ratio\<close> gives the
  result its sign; a magnitude that rounds to nothing keeps the sign on its zero.
\<close>

definition round_magnitude :: "int \<Rightarrow> int \<Rightarrow> int" where
  "round_magnitude num den =
    (let len = bit_length (num div den);
         d = (if len \<le> 24 then 1 else 2 ^ (len - 24));
         q = num div (den * d);
         r = num mod (den * d)
     in (if 2 * r < den * d then q else if den * d < 2 * r then q + 1
         else if even q then q else q + 1) * d)"

fun sign_bit :: "float32 \<Rightarrow> bool" where
  "sign_bit (Finite n) = (n < 0)"
| "sign_bit NegZero = True"
| "sign_bit PlusInfinity = False"
| "sign_bit MinusInfinity = True"
| "sign_bit NaN = False"

fun units :: "float32 \<Rightarrow> int" where
  "units (Finite n) = n"
| "units x = 0"

definition is_zero :: "float32 \<Rightarrow> bool" where
  "is_zero x = (x = Finite 0 \<or> x = NegZero)"

definition is_infinite :: "float32 \<Rightarrow> bool" where
  "is_infinite x = (x = PlusInfinity \<or> x = MinusInfinity)"

definition zero_of :: "bool \<Rightarrow> float32" where
  "zero_of negative = (if negative then NegZero else Finite 0)"

definition infinity_of :: "bool \<Rightarrow> float32" where
  "infinity_of negative = (if negative then MinusInfinity else PlusInfinity)"

definition float32_of_ratio :: "bool \<Rightarrow> int \<Rightarrow> int \<Rightarrow> float32" where
  "float32_of_ratio negative num den =
    (let m = round_magnitude num den
     in if 2 ^ 277 \<le> m then infinity_of negative
        else if m = 0 then zero_of negative
        else Finite (if negative then - m else m))"

text \<open>For comparisons: the infinities lie beyond every finite value.\<close>

fun order_key :: "float32 \<Rightarrow> int" where
  "order_key (Finite n) = n"
| "order_key NegZero = 0"
| "order_key PlusInfinity = 2 ^ 277"
| "order_key MinusInfinity = - (2 ^ 277)"
| "order_key NaN = 0"

instantiation float32 :: "{zero,one,plus,minus,uminus,times,inverse,abs,ord}"
begin

definition zero_float32 :: float32 where
  "zero_float32 = Finite 0"

definition one_float32 :: float32 where
  "one_float32 = Finite (2 ^ 149)"

fun plus_float32 :: "float32 \<Rightarrow> float32 \<Rightarrow> float32" where
  "plus_float32 (Finite a) (Finite b) = float32_round (a + b)"
| "plus_float32 NaN y = NaN"
| "plus_float32 x NaN = NaN"
| "plus_float32 PlusInfinity MinusInfinity = NaN"
| "plus_float32 MinusInfinity PlusInfinity = NaN"
| "plus_float32 PlusInfinity y = PlusInfinity"
| "plus_float32 x PlusInfinity = PlusInfinity"
| "plus_float32 MinusInfinity y = MinusInfinity"
| "plus_float32 x MinusInfinity = MinusInfinity"
| "plus_float32 NegZero NegZero = NegZero"
| "plus_float32 NegZero (Finite b) = Finite b"
| "plus_float32 (Finite a) NegZero = Finite a"

fun uminus_float32 :: "float32 \<Rightarrow> float32" where
  "uminus_float32 (Finite n) = (if n = 0 then NegZero else Finite (- n))"
| "uminus_float32 NegZero = Finite 0"
| "uminus_float32 PlusInfinity = MinusInfinity"
| "uminus_float32 MinusInfinity = PlusInfinity"
| "uminus_float32 NaN = NaN"

definition minus_float32 :: "float32 \<Rightarrow> float32 \<Rightarrow> float32" where
  "minus_float32 x y = x + (- y)"

definition times_float32 :: "float32 \<Rightarrow> float32 \<Rightarrow> float32" where
  "times_float32 x y =
    (if x = NaN \<or> y = NaN then NaN
     else if is_infinite x \<or> is_infinite y then
       (if is_zero x \<or> is_zero y then NaN else infinity_of (sign_bit x \<noteq> sign_bit y))
     else if is_zero x \<or> is_zero y then zero_of (sign_bit x \<noteq> sign_bit y)
     else float32_of_ratio (sign_bit x \<noteq> sign_bit y) (\<bar>units x\<bar> * \<bar>units y\<bar>) (2 ^ 149))"

definition divide_float32 :: "float32 \<Rightarrow> float32 \<Rightarrow> float32" where
  "divide_float32 x y =
    (if x = NaN \<or> y = NaN then NaN
     else if is_infinite x then
       (if is_infinite y then NaN else infinity_of (sign_bit x \<noteq> sign_bit y))
     else if is_infinite y then zero_of (sign_bit x \<noteq> sign_bit y)
     else if is_zero y then
       (if is_zero x then NaN else infinity_of (sign_bit x \<noteq> sign_bit y))
     else if is_zero x then zero_of (sign_bit x \<noteq> sign_bit y)
     else float32_of_ratio (sign_bit x \<noteq> sign_bit y) (\<bar>units x\<bar> * 2 ^ 149) \<bar>units y\<bar>)"

definition inverse_float32 :: "float32 \<Rightarrow> float32" where
  "inverse_float32 x = divide (Finite (2 ^ 149)) x"

fun abs_float32 :: "float32 \<Rightarrow> float32" where
  "abs_float32 (Finite n) = Finite \<bar>n\<bar>"
| "abs_float32 NegZero = Finite 0"
| "abs_float32 PlusInfinity = PlusInfinity"
| "abs_float32 MinusInfinity = PlusInfinity"
| "abs_float32 NaN = NaN"

definition less_eq_float32 :: "float32 \<Rightarrow> float32 \<Rightarrow> bool" where
  "less_eq_float32 x y = (x \<noteq> NaN \<and> y \<noteq> NaN \<and> order_key x \<le> order_key y)"

definition less_float32 :: "float32 \<Rightarrow> float32 \<Rightarrow> bool" where
  "less_float32 x y = (x \<noteq> NaN \<and> y \<noteq> NaN \<and> order_key x < order_key y)"

instance ..

end

fun is_float32 :: "float32 \<Rightarrow> bool" where
  "is_float32 (Finite n) = (round24 n = n \<and> \<bar>n\<bar> < 2 ^ 277)"
| "is_float32 x = True"

text \<open>The float nearest to an integer, as the conversion \<open>float(k)\<close> gives it.\<close>

definition float32_of_int :: "int \<Rightarrow> float32" where
  "float32_of_int k = float32_round (k * 2 ^ 149)"

text \<open>The float that is the whole number \<open>k\<close>, for a \<open>k\<close> of at most 24 significant bits.\<close>

definition whole :: "int \<Rightarrow> float32" where
  "whole k = Finite (k * 2 ^ 149)"

text \<open>
  The identity matrix translated by (1, 0, 0), and the translations by \<open>2^25\<close> and by
  \<open>- 2^25\<close> along x.
\<close>

definition float32_matrix :: "float32 mat4" where
  "float32_matrix =
     Mat4 (float32_of_int 1) (float32_of_int 0) (float32_of_int 0) (float32_of_int 0)
          (float32_of_int 0) (float32_of_int 1) (float32_of_int 0) (float32_of_int 0)
          (float32_of_int 0) (float32_of_int 0) (float32_of_int 1) (float32_of_int 0)
          (float32_of_int 1) (float32_of_int 0) (float32_of_int 0) (float32_of_int 1)"

definition float32_t1 :: "float32 vec3" where
  "float32_t1 = Vec3 (float32_of_int 33554432) (float32_of_int 0) (float32_of_int 0)"

definition float32_t2 :: "float32 vec3" where
  "float32_t2 = Vec3 (float32_of_int (- 33554432)) (float32_of_int 0) (float32_of_int 0)"

text \<open>
  A matrix of small whole numbers whose determinant is 60, and the tolerance
  \<open>0.00001f\<close>, which is \<open>10995116 * 2^-40\<close>.
\<close>

definition float32_K :: "float32 mat4" where
  "float32_K =
     Mat4 (float32_of_int 55) (float32_of_int 250) (float32_of_int 190) (float32_of_int 21)
          (float32_of_int 31) (float32_of_int 246) (float32_of_int 187) (float32_of_int 96)
          (float32_of_int 111) (float32_of_int 162) (float32_of_int 123) (float32_of_int 273)
          (float32_of_int 86) (float32_of_int 496) (float32_of_int 377) (float32_of_int 118)"

definition exact_K :: "real mat4" where
  "exact_K = Mat4 55 250 190 21  31 246 187 96  111 162 123 273  86 496 377 118"

definition float32_tolerance :: float32 where
  "float32_tolerance = Finite (10995116 * 2 ^ 109)"

section \<open>Element access\<close>

lemma elem_Mat4:
  "elem (Mat4 a00 a01 a02 a03 a10 a11 a12 a13 a20 a21 a22 a23 a30 a31 a32 a33) i j =
     (if i = 0 \<and> j = 0 then a00 else if i = 0 \<and> j = 1 then a01
      else if i = 0 \<and> j = 2 then a02 else if i = 0 \<and> j = 3 then a03
      else if i = 1 \<and> j = 0 then a10 else if i = 1 \<and> j = 1 then a11
      else if i = 1 \<and> j = 2 then a12 else if i = 1 \<and> j = 3 then a13
      else if i = 2 \<and> j = 0 then a20 else if i = 2 \<and> j = 1 then a21
      else if i = 2 \<and> j = 2 then a22 else if i = 2 \<and> j = 3 then a23
      else if i = 3 \<and> j = 0 then a30 else if i = 3 \<and> j = 1 then a31
      else if i = 3 \<and> j = 2 then a32 else if i = 3 \<and> j = 3 then a33
      else undefined)"
proof -
  have "i < 4 \<and> j < 4 \<Longrightarrow>
    (i = 0 \<or> i = 1 \<or> i = 2 \<or> i = 3) \<and> (j = 0 \<or> j = 1 \<or> j = 2 \<or> j = 3)"
    by arith
  then show ?thesis
    by (cases "i < 4 \<and> j < 4") (auto simp add: elem_def elems_def)
qed

lemma index_below_4:
  "(i::nat) < 4 \<Longrightarrow> i = 0 \<or> i = 1 \<or> i = 2 \<or> i = 3"
  by arith

lemma index_below_3:
  "(i::nat) < 3 \<Longrightarrow> i = 0 \<or> i = 1 \<or> i = 2"
  by arith

lemma GetRow_Mat4:
  "GetRow (Mat4 a00 a01 a02 a03 a10 a11 a12 a13 a20 a21 a22 a23 a30 a31 a32 a33) i =
     (if i = 0 then Vec4 a00 a01 a02 a03 else if i = 1 then Vec4 a10 a11 a12 a13
      else if i = 2 then Vec4 a20 a21 a22 a23 else if i = 3 then Vec4 a30 a31 a32 a33
      else Vec4 undefined undefined undefined undefined)"
  by (simp add: GetRow_def elem_Mat4)

lemmas vec3_defs = vec3_add_def vec3_sub_def vec3_scale_def dot_def cross_def

section \<open>Transpose\<close>

lemma transpose_Mat4:
  "transpose_mat4 (Mat4 a00 a01 a02 a03 a10 a11 a12 a13 a20 a21 a22 a23 a30 a31 a32 a33) =
     Mat4 a00 a10 a20 a30  a01 a11 a21 a31  a02 a12 a22 a32  a03 a13 a23 a33"
  by (simp add: transpose_mat4_def mat4_rows_def elem_Mat4)

text \<open>
  C6. For every matrix \<open>M\<close> and every \<open>i\<close> in 0..3, row \<open>i\<close> of \<open>transpose(M)\<close> is
  column \<open>i\<close> of \<open>M\<close>, and \<open>transpose(transpose(M))\<close> is \<open>M\<close>, component for component.
  No arithmetic is involved: the statement holds for every scalar type.
\<close>

theorem transpose_rows_are_columns:
  assumes "i < 4"
  shows "GetRow (transpose_mat4 M) i = Vec4 (elem M 0 i) (elem M 1 i) (elem M 2 i) (elem M 3 i)
       \<and> transpose_mat4 (transpose_mat4 M) = M"
proof (cases M)
  case (Mat4 a00 a01 a02 a03 a10 a11 a12 a13 a20 a21 a22 a23 a30 a31 a32 a33)
  from assms have "i = 0 \<or> i = 1 \<or> i = 2 \<or> i = 3"
    by (rule index_below_4)
  then have "GetRow (transpose_mat4 M) i =
      Vec4 (elem M 0 i) (elem M 1 i) (elem M 2 i) (elem M 3 i)"
    unfolding Mat4 by (auto simp add: transpose_Mat4 GetRow_Mat4 elem_Mat4)
  moreover have "transpose_mat4 (transpose_mat4 M) = M"
    unfolding Mat4 by (simp add: transpose_Mat4)
  ultimately show ?thesis ..
qed

theorem transpose_rows_are_columns_witness:
  "(1::nat) < 4 \<and>
   GetRow (transpose_mat4 example_matrix) 1 = Vec4 2 1 0 1 \<and>
   transpose_mat4 (transpose_mat4 example_matrix) = example_matrix"
proof -
  have h: "(1::nat) < 4" by simp
  show ?thesis
    using transpose_rows_are_columns [OF h, of example_matrix]
    by (simp add: example_matrix_def elem_Mat4)
qed

section \<open>Matrix product\<close>

lemma list_of_length_16:
  assumes "length (p::'a list) = 16"
  obtains y0 y1 y2 y3 y4 y5 y6 y7 y8 y9 y10 y11 y12 y13 y14 y15 where
    "p = [y0, y1, y2, y3, y4, y5, y6, y7, y8, y9, y10, y11, y12, y13, y14, y15]"
  using assms by (auto simp add: length_Suc_conv eval_nat_numeral)

text \<open>
  Whatever the 16 floats of the buffer were before the loops, afterwards the buffer holds
  the 16 sums row after row: every slot is written, and \<open>p[col + row * 4]\<close> is slot
  \<open>col\<close> of row \<open>row\<close>.
\<close>

lemma product_buffer_filled:
  assumes "length p = 16"
  shows "product_buffer mat1 mat2 p =
    [product_sum mat1 mat2 0 0, product_sum mat1 mat2 0 1,
     product_sum mat1 mat2 0 2, product_sum mat1 mat2 0 3,
     product_sum mat1 mat2 1 0, product_sum mat1 mat2 1 1,
     product_sum mat1 mat2 1 2, product_sum mat1 mat2 1 3,
     product_sum mat1 mat2 2 0, product_sum mat1 mat2 2 1,
     product_sum mat1 mat2 2 2, product_sum mat1 mat2 2 3,
     product_sum mat1 mat2 3 0, product_sum mat1 mat2 3 1,
     product_sum mat1 mat2 3 2, product_sum mat1 mat2 3 3]"
proof -
  from assms obtain y0 y1 y2 y3 y4 y5 y6 y7 y8 y9 y10 y11 y12 y13 y14 y15 where
    p: "p = [y0, y1, y2, y3, y4, y5, y6, y7, y8, y9, y10, y11, y12, y13, y14, y15]"
    by (rule list_of_length_16)
  show ?thesis
    unfolding p product_buffer_def product_col_def
    by (simp add: eval_nat_numeral)
qed

lemma product_sum_unrolled:
  "product_sum mat1 mat2 row col =
     0 + elem mat1 row 0 * elem mat2 0 col + elem mat1 row 1 * elem mat2 1 col
       + elem mat1 row 2 * elem mat2 2 col + elem mat1 row 3 * elem mat2 3 col"
  by (simp add: product_sum_def eval_nat_numeral)

lemma mat4_times_sums:
  "mat4_times mat1 mat2 =
     Mat4 (product_sum mat1 mat2 0 0) (product_sum mat1 mat2 0 1)
          (product_sum mat1 mat2 0 2) (product_sum mat1 mat2 0 3)
          (product_sum mat1 mat2 1 0) (product_sum mat1 mat2 1 1)
          (product_sum mat1 mat2 1 2) (product_sum mat1 mat2 1 3)
          (product_sum mat1 mat2 2 0) (product_sum mat1 mat2 2 1)
          (product_sum mat1 mat2 2 2) (product_sum mat1 mat2 2 3)
          (product_sum mat1 mat2 3 0) (product_sum mat1 mat2 3 1)
          (product_sum mat1 mat2 3 2) (product_sum mat1 mat2 3 3)"
  by (simp add: mat4_times_def product_buffer_filled mat4_of_buffer_def)

lemma elem_mat4_times:
  assumes "row < 4" and "col < 4"
  shows "elem (mat4_times mat1 mat2) row col = product_sum mat1 mat2 row col"
proof -
  from assms(1) have "row = 0 \<or> row = 1 \<or> row = 2 \<or> row = 3"
    by (rule index_below_4)
  moreover from assms(2) have "col = 0 \<or> col = 1 \<or> col = 2 \<or> col = 3"
    by (rule index_below_4)
  ultimately show ?thesis
    by (auto simp add: mat4_times_sums elem_Mat4)
qed

lemma buffer_slot:
  assumes "row < 4" and "col < 4" and "length p = 16"
  shows "product_buffer mat1 mat2 p ! (col + row * 4) = product_sum mat1 mat2 row col"
proof -
  from assms(1) have "row = 0 \<or> row = 1 \<or> row = 2 \<or> row = 3"
    by (rule index_below_4)
  moreover from assms(2) have "col = 0 \<or> col = 1 \<or> col = 2 \<or> col = 3"
    by (rule index_below_4)
  ultimately show ?thesis
    using assms(3) by (auto simp add: product_buffer_filled)
qed

text \<open>In exact arithmetic the order of the additions does not matter.\<close>

lemma elem_mat4_times_sum:
  fixes mat1 mat2 :: "'a::semiring_0 mat4"
  assumes "row < 4" and "col < 4"
  shows "elem (mat4_times mat1 mat2) row col = (\<Sum>i<4. elem mat1 row i * elem mat2 i col)"
  using assms
  by (simp add: elem_mat4_times product_sum_unrolled eval_nat_numeral lessThan_Suc ac_simps)

text \<open>
  C5. For all matrices \<open>M1\<close>, \<open>M2\<close> and all \<open>row\<close>, \<open>col\<close> in 0..3, element
  \<open>(row, col)\<close> of \<open>M1 * M2\<close> is the sum over \<open>i\<close> in 0..3 of
  \<open>M1(row, i) * M2(i, col)\<close>, added from \<open>0\<close> in the order \<open>i = 0, 1, 2, 3\<close> as the
  inner loop does; and it is the value the loops leave in the buffer at
  \<open>p[col + row * 4]\<close>. The statement is for every scalar type and uses no law of
  arithmetic.
\<close>

theorem product_element:
  fixes mat1 mat2 :: "'a::{zero,plus,times} mat4"
  assumes "row < 4" and "col < 4"
  shows "elem (mat4_times mat1 mat2) row col =
            0 + elem mat1 row 0 * elem mat2 0 col + elem mat1 row 1 * elem mat2 1 col
              + elem mat1 row 2 * elem mat2 2 col + elem mat1 row 3 * elem mat2 3 col
       \<and> elem (mat4_times mat1 mat2) row col =
            product_buffer mat1 mat2 (replicate 16 0) ! (col + row * 4)"
proof -
  have "elem (mat4_times mat1 mat2) row col = product_sum mat1 mat2 row col"
    using assms by (rule elem_mat4_times)
  moreover have "product_buffer mat1 mat2 (replicate 16 0) ! (col + row * 4) =
      product_sum mat1 mat2 row col"
    using assms by (simp add: buffer_slot)
  ultimately show ?thesis
    by (simp add: product_sum_unrolled)
qed

theorem product_element_witness:
  "(1::nat) < 4 \<and> (2::nat) < 4 \<and>
   elem (mat4_times example_matrix example_matrix) 1 2 = 0 * 3 + 1 * 5 + 5 * 1 + 7 * 0"
proof -
  have h1: "(1::nat) < 4" and h2: "(2::nat) < 4" by simp_all
  show ?thesis
    using product_element [OF h1 h2, of example_matrix example_matrix]
    by (simp add: example_matrix_def elem_Mat4)
qed

section \<open>Determinant\<close>

lemma upt_0_4: "[0..<4] = [0, 1, 2, 3]"
  by (simp add: upt_rec)

text \<open>The 24 permutations of the four columns.\<close>

lemma permutations_0123:
  "permutations [0, 1, 2, 3 :: nat] =
    [[0, 1, 2, 3], [1, 0, 2, 3], [1, 2, 0, 3], [1, 2, 3, 0], [0, 2, 1, 3], [2, 0, 1, 3],
     [2, 1, 0, 3], [2, 1, 3, 0], [0, 2, 3, 1], [2, 0, 3, 1], [2, 3, 0, 1], [2, 3, 1, 0],
     [0, 1, 3, 2], [1, 0, 3, 2], [1, 3, 0, 2], [1, 3, 2, 0], [0, 3, 1, 2], [3, 0, 1, 2],
     [3, 1, 0, 2], [3, 1, 2, 0], [0, 3, 2, 1], [3, 0, 2, 1], [3, 2, 0, 1], [3, 2, 1, 0]]"
  by simp

lemma permutations_0123_distinct:
  "distinct (permutations [0, 1, 2, 3 :: nat]) \<and> length (permutations [0, 1, 2, 3 :: nat]) = 24"
  by (simp add: permutations_0123)

lemma perm_sign_4:
  "perm_sign [a, b, c, d] =
    (if even (length (filter (\<lambda>(i, j). i < j \<and> [a, b, c, d] ! j < [a, b, c, d] ! i)
                        (List.product [0, 1, 2, 3] [0, 1, 2, 3])))
     then 1 else - 1)"
  by (simp add: perm_sign_def inversions_def upt_0_4)

text \<open>
  C4. For every matrix \<open>M\<close>, \<open>determinant(M)\<close>, computed from the six 2x2 minors
  \<open>a0..a5\<close> of rows 0-1 and \<open>b0..b5\<close> of rows 2-3 as
  \<open>a0*b5 - a1*b4 + a2*b3 + a3*b2 - a4*b1 + a5*b0\<close>, is the mathematical determinant of
  the 4x4 matrix of the 16 elements of \<open>M\<close>, in exact arithmetic (a commutative ring).
\<close>

theorem determinant_is_leibniz:
  fixes M :: "'a::comm_ring_1 mat4"
  shows "determinant M = leibniz_determinant M"
proof (cases M)
  case (Mat4 a00 a01 a02 a03 a10 a11 a12 a13 a20 a21 a22 a23 a30 a31 a32 a33)
  have "leibniz_determinant M =
      a00 * a11 * a22 * a33 - a00 * a11 * a23 * a32 - a00 * a12 * a21 * a33
    + a00 * a12 * a23 * a31 + a00 * a13 * a21 * a32 - a00 * a13 * a22 * a31
    - a01 * a10 * a22 * a33 + a01 * a10 * a23 * a32 + a01 * a12 * a20 * a33
    - a01 * a12 * a23 * a30 - a01 * a13 * a20 * a32 + a01 * a13 * a22 * a30
    + a02 * a10 * a21 * a33 - a02 * a10 * a23 * a31 - a02 * a11 * a20 * a33
    + a02 * a11 * a23 * a30 + a02 * a13 * a20 * a31 - a02 * a13 * a21 * a30
    - a03 * a10 * a21 * a32 + a03 * a10 * a22 * a31 + a03 * a11 * a20 * a32
    - a03 * a11 * a22 * a30 - a03 * a12 * a20 * a31 + a03 * a12 * a21 * a30"
    unfolding Mat4
    by (simp add: leibniz_determinant_def perm_sign_4 elem_Mat4 upt_0_4 algebra_simps)
  moreover have "determinant M =
      a00 * a11 * a22 * a33 - a00 * a11 * a23 * a32 - a00 * a12 * a21 * a33
    + a00 * a12 * a23 * a31 + a00 * a13 * a21 * a32 - a00 * a13 * a22 * a31
    - a01 * a10 * a22 * a33 + a01 * a10 * a23 * a32 + a01 * a12 * a20 * a33
    - a01 * a12 * a23 * a30 - a01 * a13 * a20 * a32 + a01 * a13 * a22 * a30
    + a02 * a10 * a21 * a33 - a02 * a10 * a23 * a31 - a02 * a11 * a20 * a33
    + a02 * a11 * a23 * a30 + a02 * a13 * a20 * a31 - a02 * a13 * a21 * a30
    - a03 * a10 * a21 * a32 + a03 * a10 * a22 * a31 + a03 * a11 * a20 * a32
    - a03 * a11 * a22 * a30 - a03 * a12 * a20 * a31 + a03 * a12 * a21 * a30"
    unfolding Mat4
    by (simp add: determinant_def Let_def elem_Mat4 algebra_simps)
  ultimately show ?thesis by simp
qed

lemma determinant_identity: "determinant (mat4_identity :: 'a::comm_ring_1 mat4) = 1"
  by (simp add: determinant_def mat4_identity_def Let_def elem_Mat4)

lemma determinant_zero_matrix: "determinant zero_matrix = 0"
  by (simp add: determinant_def zero_matrix_def Let_def elem_Mat4)

lemma determinant_example_matrix: "determinant example_matrix = 29"
  by (simp add: determinant_def example_matrix_def Let_def elem_Mat4)

section \<open>Inverse\<close>

lemma inverse_mat4_branches:
  "inverse_mat4 TOLERANCE mat =
     (if \<bar>determinant mat\<bar> \<le> TOLERANCE then mat4_identity
      else inverse_with (1 / inverse_divisor mat) mat)"
  by (simp add: inverse_mat4_def inverse_with_def inverse_divisor_def Let_def)

lemma inverse_divisor_determinant:
  fixes mat :: "'a::comm_ring mat4"
  shows "inverse_divisor mat = determinant mat"
  by (cases mat)
    (simp add: inverse_divisor_def determinant_def Let_def elem_Mat4 vec3_defs algebra_simps)

text \<open>
  With any number \<open>k\<close> in the place of \<open>invDet\<close>, the matrix times the result of the
  branch is \<open>k * determinant\<close> on the diagonal and \<open>0\<close> elsewhere: sixteen polynomial
  identities in the sixteen elements and \<open>k\<close>.
\<close>

lemma times_inverse_with:
  fixes mat :: "'a::comm_ring_1 mat4"
  shows "mat4_times mat (inverse_with k mat) =
     Mat4 (k * determinant mat) 0 0 0
          0 (k * determinant mat) 0 0
          0 0 (k * determinant mat) 0
          0 0 0 (k * determinant mat)"
proof (cases mat)
  case (Mat4 a00 a01 a02 a03 a10 a11 a12 a13 a20 a21 a22 a23 a30 a31 a32 a33)
  show ?thesis
    unfolding Mat4
    apply (simp add: inverse_with_def determinant_def Let_def mat4_times_sums
        product_sum_unrolled elem_Mat4 vec3_defs)
    apply (intro conjI)
                   apply (simp_all add: algebra_simps)
    done
qed

lemma nonzero_beyond_tolerance:
  fixes d :: "'a::linordered_idom"
  assumes "0 \<le> TOLERANCE" and "\<not> \<bar>d\<bar> \<le> TOLERANCE"
  shows "d \<noteq> 0"
  using assms by auto

text \<open>
  C3. For every matrix \<open>M\<close> with \<open>|determinant(M)| <= TOLERANCE\<close>, \<open>inverse(M)\<close> is
  the identity matrix; the function returns a matrix in every case, it has no way to
  signal an error. The statement holds for every scalar type and every value of
  \<open>TOLERANCE\<close>. The witness is the all-zero matrix, whose determinant is 0.
\<close>

theorem inverse_singular_is_identity:
  fixes M :: "'a::{abs,ord,zero,one,plus,minus,uminus,times,inverse} mat4"
  assumes "\<bar>determinant M\<bar> \<le> TOLERANCE"
  shows "inverse_mat4 TOLERANCE M = mat4_identity"
  using assms by (simp add: inverse_mat4_def)

theorem inverse_singular_is_identity_witness:
  "\<bar>determinant zero_matrix\<bar> \<le> 1 / 100000 \<and>
   inverse_mat4 (1 / 100000) zero_matrix = Mat4 1 0 0 0  0 1 0 0  0 0 1 0  0 0 0 1"
proof -
  have h: "\<bar>determinant zero_matrix\<bar> \<le> 1 / 100000"
    by (simp add: determinant_zero_matrix)
  show ?thesis
    using inverse_singular_is_identity [OF h] h
    by (simp add: mat4_identity_def)
qed

text \<open>
  C9, as amended. In \<open>inverse(M)\<close>, when the tolerance test fails
  (\<open>|determinant(M)| > TOLERANCE\<close>, for a tolerance that is not negative), the result
  is built with \<open>invDet = 1 / (dot(s, v) + dot(t, u))\<close>, and in exact arithmetic (an
  ordered field) this divisor is \<open>determinant(M)\<close> and is not zero, so that there the
  division does not divide by zero. With floats the test and the divisor round the same
  number in two ways, and the divisor can be zero behind the test (the matrix
  \<open>float32_K\<close>, in the section on the inverse with floats).
\<close>

theorem inverse_divisor_nonzero:
  fixes M :: "'a::linordered_field mat4"
  assumes "0 \<le> TOLERANCE" and "\<not> \<bar>determinant M\<bar> \<le> TOLERANCE"
  shows "inverse_mat4 TOLERANCE M = inverse_with (1 / inverse_divisor M) M
       \<and> inverse_divisor M = determinant M
       \<and> inverse_divisor M \<noteq> 0"
proof -
  have "inverse_mat4 TOLERANCE M = inverse_with (1 / inverse_divisor M) M"
    using assms(2) by (simp add: inverse_mat4_branches)
  moreover have "inverse_divisor M = determinant M"
    by (rule inverse_divisor_determinant)
  moreover have "determinant M \<noteq> 0"
    using assms by (rule nonzero_beyond_tolerance)
  ultimately show ?thesis by simp
qed

theorem inverse_divisor_nonzero_witness:
  "(0::real) \<le> 1 / 100000 \<and> \<not> \<bar>determinant example_matrix\<bar> \<le> 1 / 100000 \<and>
   inverse_divisor example_matrix = 29 \<and> inverse_divisor example_matrix \<noteq> 0"
proof -
  have h1: "(0::real) \<le> 1 / 100000" by simp
  have h2: "\<not> \<bar>determinant example_matrix\<bar> \<le> 1 / 100000"
    by (simp add: determinant_example_matrix)
  show ?thesis
    using inverse_divisor_nonzero [OF h1 h2] h2
    by (simp add: determinant_example_matrix)
qed

text \<open>
  C2, as amended. For every matrix \<open>M\<close> with \<open>canBeInverse(M)\<close>, that is with
  \<open>|determinant(M)| > TOLERANCE\<close> for a tolerance that is not negative, the product
  \<open>M * inverse(M)\<close> is the identity matrix in exact arithmetic (an ordered field).
  With floats the product is not within an epsilon of the identity for every such \<open>M\<close>
  (the matrix \<open>float32_K\<close>, in the section on the inverse with floats).
\<close>

theorem inverse_law:
  fixes M :: "'a::linordered_field mat4"
  assumes "0 \<le> TOLERANCE" and "canBeInverse TOLERANCE M"
  shows "mat4_times M (inverse_mat4 TOLERANCE M) = mat4_identity"
proof -
  from assms(2) have beyond: "\<not> \<bar>determinant M\<bar> \<le> TOLERANCE"
    by (simp add: canBeInverse_def)
  with assms(1) have nonzero: "determinant M \<noteq> 0"
    by (rule nonzero_beyond_tolerance)
  from beyond have "inverse_mat4 TOLERANCE M = inverse_with (1 / determinant M) M"
    by (simp add: inverse_mat4_branches inverse_divisor_determinant)
  then have "mat4_times M (inverse_mat4 TOLERANCE M) =
     Mat4 (1 / determinant M * determinant M) 0 0 0
          0 (1 / determinant M * determinant M) 0 0
          0 0 (1 / determinant M * determinant M) 0
          0 0 0 (1 / determinant M * determinant M)"
    by (simp only: times_inverse_with)
  with nonzero show ?thesis
    by (simp add: mat4_identity_def)
qed

theorem inverse_law_witness:
  "(0::real) \<le> 1 / 100000 \<and> canBeInverse (1 / 100000) example_matrix \<and>
   mat4_times example_matrix (inverse_mat4 (1 / 100000) example_matrix) =
     Mat4 1 0 0 0  0 1 0 0  0 0 1 0  0 0 0 1"
proof -
  have h1: "(0::real) \<le> 1 / 100000" by simp
  have h2: "canBeInverse (1 / 100000) example_matrix"
    by (simp add: canBeInverse_def determinant_example_matrix)
  show ?thesis
    using inverse_law [OF h1 h2] h2
    by (simp add: mat4_identity_def)
qed

text \<open>The inverse the source computes for the example matrix.\<close>

lemma inverse_with_example_matrix:
  "inverse_with (1 / 29) example_matrix =
     Mat4 (10 / 29) (- 9 / 29) (15 / 29) (- 11 / 29)
          (12 / 29) (- 5 / 29) (- 11 / 29) (10 / 29)
          (13 / 29) (- 3 / 29) (5 / 29) (- 23 / 29)
          (- 11 / 29) (7 / 29) (- 2 / 29) (15 / 29)"
  by (simp add: inverse_with_def example_matrix_def Let_def elem_Mat4 vec3_defs)

lemma inverse_example_matrix:
  "inverse_mat4 (1 / 100000) example_matrix =
     Mat4 (10 / 29) (- 9 / 29) (15 / 29) (- 11 / 29)
          (12 / 29) (- 5 / 29) (- 11 / 29) (10 / 29)
          (13 / 29) (- 3 / 29) (5 / 29) (- 23 / 29)
          (- 11 / 29) (7 / 29) (- 2 / 29) (15 / 29)"
  by (simp add: inverse_mat4_branches inverse_divisor_determinant determinant_example_matrix
      inverse_with_example_matrix)

section \<open>Rotation\<close>

text \<open>
  C8. For every matrix \<open>M\<close>, angle and axis, \<open>rotate(M, angle, axis)\<close> has the
  elements (0,3), (1,3), (2,3) of \<open>M\<close> at (0,3), (1,3), (2,3), and row 3 of \<open>M\<close> as its
  row 3.
\<close>

theorem rotate_keeps_column_3_and_row_3:
  "elem (rotate M angle axis) 0 3 = elem M 0 3
 \<and> elem (rotate M angle axis) 1 3 = elem M 1 3
 \<and> elem (rotate M angle axis) 2 3 = elem M 2 3
 \<and> GetRow (rotate M angle axis) 3 = GetRow M 3"
  by (simp add: rotate_def Let_def GetRow_def elem_Mat4)

text \<open>
  C10. For any two matrices \<open>M1\<close> and \<open>M2\<close> and the same angle and axis, the results of
  \<open>rotate\<close> have the same elements \<open>(i, j)\<close> for \<open>i\<close>, \<open>j\<close> in 0..2: the upper-left
  3x3 block is built from the angle and the axis alone and replaces that of the input.
\<close>

theorem rotate_block_independent_of_matrix:
  assumes "i < 3" and "j < 3"
  shows "elem (rotate M1 angle axis) i j = elem (rotate M2 angle axis) i j"
proof -
  from assms(1) have "i = 0 \<or> i = 1 \<or> i = 2"
    by (rule index_below_3)
  moreover from assms(2) have "j = 0 \<or> j = 1 \<or> j = 2"
    by (rule index_below_3)
  ultimately show ?thesis
    by (auto simp add: rotate_def Let_def elem_Mat4)
qed

theorem rotate_block_independent_of_matrix_witness:
  "(0::nat) < 3 \<and> (1::nat) < 3 \<and>
   elem (rotate example_matrix (pi / 2) (Vec3 0 0 1)) 0 1 = - 1 \<and>
   elem (rotate zero_matrix (pi / 2) (Vec3 0 0 1)) 0 1 = - 1"
proof -
  have h0: "(0::nat) < 3" and h1: "(1::nat) < 3" by simp_all
  have "elem (rotate zero_matrix (pi / 2) (Vec3 0 0 1)) 0 1 = - 1"
    by (simp add: rotate_def Let_def elem_Mat4)
  then show ?thesis
    using rotate_block_independent_of_matrix
      [OF h0 h1, of example_matrix "pi / 2" "Vec3 0 0 1" zero_matrix]
    by simp
qed

text \<open>What the source computes at (0,2) and (2,0), for every input.\<close>

lemma rotate_cross_terms:
  "elem (rotate M angle axis) 0 2 =
     x3 axis * (1 - cos angle) * y3 axis + sin angle * y3 axis
 \<and> elem (rotate M angle axis) 2 0 =
     x3 axis * (1 - cos angle) * y3 axis - sin angle * y3 axis"
  by (simp add: rotate_def Let_def elem_Mat4)

text \<open>
  C1. The claim: in \<open>rotate(M, angle, axis)\<close> the coefficient \<open>axaz\<close>, used at (0,2)
  and (2,0), is \<open>axis.x * d * axis.z\<close> with \<open>d = 1 - cos(angle)\<close>. The source computes
  \<open>axaz = x * axis.y\<close>, the same product as \<open>axay\<close>. For the quarter turn about the unit
  axis (3/5, 0, 4/5) the elements (0,2) and (2,0) of the result are both 0, where
  \<open>axis.x * d * axis.z + sin(angle) * axis.y\<close> and
  \<open>axis.x * d * axis.z - sin(angle) * axis.y\<close> are both 12/25.
\<close>

theorem rotate_axaz_is_axay:
  "elem (rotate mat4_identity (pi / 2) (Vec3 (3 / 5) 0 (4 / 5))) 0 2 = 0
 \<and> elem (rotate mat4_identity (pi / 2) (Vec3 (3 / 5) 0 (4 / 5))) 2 0 = 0
 \<and> (3 / 5) * (1 - cos (pi / 2)) * (4 / 5) + sin (pi / 2) * 0 = (12 / 25 :: real)
 \<and> (3 / 5) * (1 - cos (pi / 2)) * (4 / 5) - sin (pi / 2) * 0 = (12 / 25 :: real)"
  by (simp add: rotate_def Let_def elem_Mat4)

section \<open>Float addition\<close>

lemma bit_length_bound: "0 \<le> n \<Longrightarrow> n < 2 ^ k \<Longrightarrow> bit_length n \<le> k"
proof (induction k arbitrary: n)
  case 0
  then show ?case by (simp add: bit_length.simps)
next
  case (Suc k)
  show ?case
  proof (cases "n \<le> 0")
    case True
    then show ?thesis by (simp add: bit_length.simps)
  next
    case False
    with Suc.prems have "0 \<le> n div 2" and "n div 2 < 2 ^ k" by auto
    then have "bit_length (n div 2) \<le> k" by (rule Suc.IH)
    with False show ?thesis by (subst bit_length.simps) simp
  qed
qed

lemma round24_exact: "\<bar>n\<bar> < 2 ^ 24 \<Longrightarrow> round24 n = n"
  using bit_length_bound [of "\<bar>n\<bar>" 24] by (simp add: round24_def)

text \<open>Sums below \<open>2^24\<close> units are exact.\<close>

lemma float32_small_sum:
  "\<bar>a + b\<bar> < 2 ^ 24 \<Longrightarrow> Finite a + Finite b = Finite (a + b)"
  by (auto simp add: float32_round_def round24_exact Let_def)

lemmas float32_eval = float32_round_def round24_def bit_length.simps Let_def

lemma float32_of_int_values:
  "float32_of_int 0 = Finite 0"
  "float32_of_int 1 = Finite (2 ^ 149)"
  "float32_of_int 33554432 = Finite (2 ^ 174)"
  "float32_of_int (- 33554432) = Finite (- (2 ^ 174))"
  by (simp_all add: float32_of_int_def float32_eval)

text \<open>
  Rounding as the format has it: \<open>2^24 + 1\<close> is a tie and goes to the even \<open>2^24\<close>,
  \<open>2^24 + 3\<close> goes up to \<open>2^24 + 4\<close>, and the largest float plus half a unit of its
  last place is an infinity.
\<close>

lemma float32_rounding_examples:
  "float32_of_int 16777216 + float32_of_int 1 = float32_of_int 16777216"
  "float32_of_int 16777216 + float32_of_int 3 = float32_of_int 16777220"
  "float32_of_int 16777218 + float32_of_int 1 = float32_of_int 16777220"
  "float32_of_int (- 16777216) + float32_of_int (- 3) = float32_of_int (- 16777220)"
  "float32_of_int 16777216 + float32_of_int (- 1) = float32_of_int 16777215"
  "Finite ((2 ^ 24 - 1) * 2 ^ 253) + Finite (2 ^ 252) = PlusInfinity"
  "Finite ((2 ^ 24 - 1) * 2 ^ 253) + Finite (2 ^ 252 - 2 ^ 229) = Finite ((2 ^ 24 - 1) * 2 ^ 253)"
  by (simp_all add: float32_of_int_def float32_eval)

lemma float32_sums:
  "float32_of_int 1 + float32_of_int 33554432 = float32_of_int 33554432"
  "float32_of_int 33554432 + float32_of_int (- 33554432) = float32_of_int 0"
  "float32_of_int 1 + float32_of_int 0 = float32_of_int 1"
  "float32_of_int 0 + float32_of_int 0 = float32_of_int 0"
  by (simp_all add: float32_of_int_values float32_eval)

lemma float32_inputs:
  "is_float32 (float32_of_int 0)" "is_float32 (float32_of_int 1)"
  "is_float32 (float32_of_int 33554432)" "is_float32 (float32_of_int (- 33554432))"
  by (simp_all add: float32_of_int_values round24_def bit_length.simps Let_def)

section \<open>Float arithmetic on whole numbers\<close>

text \<open>
  Rounding commutes with a shift: \<open>round24 (k * 2^e) = round24 k * 2^e\<close>. So the
  floats that are whole numbers are added, subtracted and multiplied as the whole
  numbers are, with the result rounded to 24 significant bits.
\<close>

lemma bit_length_pos: "0 < n \<Longrightarrow> bit_length n = Suc (bit_length (n div 2))"
  by (subst bit_length.simps) simp

lemma bit_length_nonpos: "n \<le> 0 \<Longrightarrow> bit_length n = 0"
  by (subst bit_length.simps) simp

lemma bit_length_shift: "0 < k \<Longrightarrow> bit_length (k * 2 ^ e) = bit_length k + e"
proof (induction e)
  case 0
  then show ?case by simp
next
  case (Suc e)
  from Suc.prems have pos: "0 < k * 2 ^ Suc e" by simp
  have "(k * 2 ^ Suc e) div 2 = k * 2 ^ e" by simp
  with pos Suc show ?case by (simp add: bit_length_pos del: power_Suc)
qed

lemma rne_scale:
  fixes n d c :: int
  assumes "0 < c"
  shows "(if 2 * ((n * c) mod (d * c)) < d * c then (n * c) div (d * c)
          else if d * c < 2 * ((n * c) mod (d * c)) then (n * c) div (d * c) + 1
          else if even ((n * c) div (d * c)) then (n * c) div (d * c) else (n * c) div (d * c) + 1)
       = (if 2 * (n mod d) < d then n div d
          else if d < 2 * (n mod d) then n div d + 1
          else if even (n div d) then n div d else n div d + 1)"
proof -
  have m: "(n * c) mod (d * c) = (n mod d) * c" by simp
  have dv: "(n * c) div (d * c) = n div d" using assms by simp
  have a: "2 * ((n mod d) * c) < d * c \<longleftrightarrow> 2 * (n mod d) < d"
    using assms by (metis mult.assoc mult_less_cancel_right_pos)
  have b: "d * c < 2 * ((n mod d) * c) \<longleftrightarrow> d < 2 * (n mod d)"
    using assms by (metis mult.assoc mult_less_cancel_right_pos)
  show ?thesis unfolding m dv a b ..
qed

lemma round24_shift: "round24 (k * 2 ^ e) = round24 k * 2 ^ e"
proof (cases "k = 0")
  case True
  then show ?thesis by (simp add: round24_def bit_length_nonpos)
next
  case False
  then have pos: "0 < \<bar>k\<bar>" by simp
  have abs: "\<bar>k * 2 ^ e\<bar> = \<bar>k\<bar> * 2 ^ e" by (simp add: abs_mult)
  have len: "bit_length \<bar>k * 2 ^ e\<bar> = bit_length \<bar>k\<bar> + e"
    unfolding abs using pos by (rule bit_length_shift)
  show ?thesis
  proof (cases "bit_length \<bar>k\<bar> \<le> 24")
    case small: True
    show ?thesis
    proof (cases "bit_length \<bar>k\<bar> + e \<le> 24")
      case True
      with small show ?thesis by (simp add: round24_def len)
    next
      case False
      define j where "j = bit_length \<bar>k\<bar> + e - 24"
      define i where "i = 24 - bit_length \<bar>k\<bar>"
      define n where "n = k * 2 ^ e"
      from small False have e: "e = i + j" by (simp add: i_def j_def)
      have split: "n = (k * 2 ^ i) * 2 ^ j" by (simp add: n_def e power_add)
      have nmod: "n mod 2 ^ j = 0" and ndiv: "n div 2 ^ j * 2 ^ j = n"
        unfolding split by simp_all
      have len_n: "bit_length \<bar>n\<bar> = bit_length \<bar>k\<bar> + e"
        unfolding n_def by (rule len)
      from False have "round24 n = n"
        by (simp add: round24_def len_n Let_def j_def [symmetric] nmod ndiv)
      moreover from small have "round24 k = k"
        by (simp add: round24_def)
      ultimately show ?thesis by (simp add: n_def)
    qed
  next
    case False
    define d :: int where "d = 2 ^ (bit_length \<bar>k\<bar> - 24)"
    define q where "q = (if 2 * (k mod d) < d then k div d
          else if d < 2 * (k mod d) then k div d + 1
          else if even (k div d) then k div d else k div d + 1)"
    from False have ex: "bit_length \<bar>k\<bar> + e - 24 = (bit_length \<bar>k\<bar> - 24) + e" by simp
    have d': "(2::int) ^ (bit_length \<bar>k\<bar> + e - 24) = d * 2 ^ e"
      by (simp add: ex power_add d_def)
    have c: "(0::int) < 2 ^ e" by simp
    from False have long: "\<not> bit_length \<bar>k\<bar> + e \<le> 24" by simp
    have "round24 (k * 2 ^ e) =
       (if 2 * ((k * 2 ^ e) mod (d * 2 ^ e)) < d * 2 ^ e then (k * 2 ^ e) div (d * 2 ^ e)
          else if d * 2 ^ e < 2 * ((k * 2 ^ e) mod (d * 2 ^ e)) then (k * 2 ^ e) div (d * 2 ^ e) + 1
          else if even ((k * 2 ^ e) div (d * 2 ^ e)) then (k * 2 ^ e) div (d * 2 ^ e)
          else (k * 2 ^ e) div (d * 2 ^ e) + 1) * (d * 2 ^ e)"
      unfolding round24_def len Let_def d' using long by (simp only: if_False)
    also have "\<dots> = q * (d * 2 ^ e)"
      unfolding q_def by (simp only: rne_scale [OF c])
    finally have left: "round24 (k * 2 ^ e) = q * (d * 2 ^ e)" .
    from False have "round24 k = q * d"
      unfolding round24_def Let_def q_def d_def by (simp only: if_False)
    with left show ?thesis by simp
  qed
qed


lemma round_magnitude_scale:
  assumes "0 \<le> n" and "0 < c"
  shows "round_magnitude (n * c) c = round24 n"
proof -
  from assms(1) have abs: "\<bar>n\<bar> = n" by simp
  from assms(2) have dv: "n * c div c = n" by simp
  show ?thesis
  proof (cases "bit_length n \<le> 24")
    case True
    with assms(2) show ?thesis
      by (simp add: round_magnitude_def round24_def Let_def abs)
  next
    case False
    define d :: int where "d = 2 ^ (bit_length n - 24)"
    have "round_magnitude (n * c) c =
       (if 2 * ((n * c) mod (d * c)) < d * c then (n * c) div (d * c)
          else if d * c < 2 * ((n * c) mod (d * c)) then (n * c) div (d * c) + 1
          else if even ((n * c) div (d * c)) then (n * c) div (d * c)
          else (n * c) div (d * c) + 1) * d"
      unfolding round_magnitude_def Let_def dv d_def using False
      by (simp only: if_False mult.commute [of c])
    also have "\<dots> = round24 n"
      unfolding round24_def Let_def abs d_def using False
      by (simp only: if_False rne_scale [OF assms(2)])
    finally show ?thesis .
  qed
qed

lemma scaled_bounds:
  fixes r u B :: int
  assumes "0 < u" and "\<bar>r\<bar> < B"
  shows "\<not> B * u \<le> r * u" and "\<not> r * u \<le> - (B * u)"
proof -
  from assms have "r < B" and "- B < r" by simp_all
  with assms(1) have "r * u < B * u" and "- B * u < r * u"
    by (simp_all only: mult_less_cancel_right_pos)
  then show "\<not> B * u \<le> r * u" and "\<not> r * u \<le> - (B * u)" by simp_all
qed

lemma float32_round_whole:
  assumes "\<bar>round24 k\<bar> < 2 ^ 128"
  shows "float32_round (k * 2 ^ 149) = whole (round24 k)"
proof -
  have p: "(2::int) ^ 277 = 2 ^ 128 * 2 ^ 149"
    by (simp only: power_add [symmetric]) simp
  have u: "(0::int) < 2 ^ 149" by simp
  show ?thesis
    unfolding float32_round_def round24_shift Let_def whole_def p
    by (simp only: scaled_bounds [OF u assms] if_False)
qed

lemma float32_of_int_whole:
  "\<bar>round24 k\<bar> < 2 ^ 128 \<Longrightarrow> float32_of_int k = whole (round24 k)"
  unfolding float32_of_int_def by (rule float32_round_whole)

lemma whole_plus:
  assumes "\<bar>round24 (a + b)\<bar> < 2 ^ 128"
  shows "whole a + whole b = whole (round24 (a + b))"
proof -
  have "whole a + whole b = float32_round ((a + b) * 2 ^ 149)"
    unfolding whole_def by (simp only: plus_float32.simps distrib_right)
  with assms show ?thesis by (simp only: float32_round_whole)
qed

lemma whole_uminus: "b \<noteq> 0 \<Longrightarrow> - whole b = whole (- b)"
  unfolding whole_def by simp

lemma whole_minus:
  assumes "b \<noteq> 0" and "\<bar>round24 (a - b)\<bar> < 2 ^ 128"
  shows "whole a - whole b = whole (round24 (a - b))"
proof -
  from assms(1) have "whole a - whole b = whole a + whole (- b)"
    by (simp add: minus_float32_def whole_uminus)
  also from assms(2) have "\<dots> = whole (round24 (a + - b))"
    by (intro whole_plus) simp
  finally show ?thesis by simp
qed

lemma whole_times:
  assumes "a \<noteq> 0" and "b \<noteq> 0"
    and "0 < round24 \<bar>a * b\<bar>" and "round24 \<bar>a * b\<bar> < 2 ^ 128"
  shows "whole a * whole b =
     whole (if (a < 0) \<noteq> (b < 0) then - round24 \<bar>a * b\<bar> else round24 \<bar>a * b\<bar>)"
proof -
  define u :: int where "u = 2 ^ 149"
  have u: "0 < u" by (simp add: u_def)
  have p: "(2::int) ^ 277 = 2 ^ 128 * u"
    unfolding u_def by (simp only: power_add [symmetric]) simp
  have "\<bar>a * u\<bar> * \<bar>b * u\<bar> = (\<bar>a * b\<bar> * u) * u"
    using u by (simp add: abs_mult)
  then have "round_magnitude (\<bar>a * u\<bar> * \<bar>b * u\<bar>) u = round24 (\<bar>a * b\<bar> * u)"
    using u by (simp only: round_magnitude_scale) (simp add: round_magnitude_scale)
  also have "\<dots> = round24 \<bar>a * b\<bar> * u"
    unfolding u_def by (rule round24_shift)
  finally have m: "round_magnitude (\<bar>a * u\<bar> * \<bar>b * u\<bar>) u = round24 \<bar>a * b\<bar> * u" .
  from assms(3,4) have "\<bar>round24 \<bar>a * b\<bar>\<bar> < 2 ^ 128" by simp
  with u have big: "\<not> 2 ^ 128 * u \<le> round24 \<bar>a * b\<bar> * u"
    by (rule scaled_bounds)
  from assms(3) u have nz: "round24 \<bar>a * b\<bar> * u \<noteq> 0" by simp
  from assms(1,2) u have fin: "a * u \<noteq> 0" "b * u \<noteq> 0" by simp_all
  from u have sg: "(a * u < 0) = (a < 0)" "(b * u < 0) = (b < 0)"
    by (simp_all add: mult_less_0_iff)
  have "Finite (a * u) * Finite (b * u) =
     Finite (if (a < 0) \<noteq> (b < 0) then - (round24 \<bar>a * b\<bar> * u) else round24 \<bar>a * b\<bar> * u)"
    unfolding times_float32_def float32_of_ratio_def Let_def is_zero_def is_infinite_def
      u_def [symmetric] p
    using fin big nz by (simp add: m sg)
  then show ?thesis
    unfolding whole_def u_def [symmetric] by (simp split: if_splits)
qed

lemma whole_infinity:
  "k \<noteq> 0 \<Longrightarrow> whole k * PlusInfinity = (if k < 0 then MinusInfinity else PlusInfinity)"
  "k \<noteq> 0 \<Longrightarrow> whole k * MinusInfinity = (if k < 0 then PlusInfinity else MinusInfinity)"
  "k \<noteq> 0 \<Longrightarrow> PlusInfinity * whole k = (if k < 0 then MinusInfinity else PlusInfinity)"
  "k \<noteq> 0 \<Longrightarrow> MinusInfinity * whole k = (if k < 0 then PlusInfinity else MinusInfinity)"
  by (simp_all add: whole_def times_float32_def is_zero_def is_infinite_def infinity_of_def
      mult_less_0_iff)


lemma float32_of_small_int:
  assumes "\<bar>k\<bar> < 2 ^ 24"
  shows "float32_of_int k = whole k" and "is_float32 (whole k)"
proof -
  from assms have exact: "round24 k = k" by (rule round24_exact)
  from assms have "\<bar>round24 k\<bar> < 2 ^ 128" unfolding exact by simp
  then show "float32_of_int k = whole k"
    by (simp only: float32_of_int_whole exact)
  have u: "(0::int) < 2 ^ 149" by simp
  have p: "(2::int) ^ 277 = 2 ^ 128 * 2 ^ 149"
    by (simp only: power_add [symmetric]) simp
  from assms have "\<bar>k\<bar> < 2 ^ 128" by simp
  with u have "\<not> 2 ^ 128 * 2 ^ 149 \<le> k * 2 ^ 149" and "\<not> k * 2 ^ 149 \<le> - (2 ^ 128 * 2 ^ 149)"
    by (rule scaled_bounds)+
  then have "\<bar>k * 2 ^ 149\<bar> < 2 ^ 277"
    unfolding p by (simp only: abs_less_iff) simp
  then show "is_float32 (whole k)"
    unfolding whole_def by (simp only: is_float32.simps round24_shift exact)
qed

lemmas whole_eval = float32_of_int_whole whole_plus whole_minus whole_times whole_infinity
  round24_def bit_length.simps Let_def

lemma float32_NaN:
  "x + NaN = NaN" "NaN + x = NaN" "x - NaN = NaN" "NaN - x = NaN"
  "x * NaN = NaN" "NaN * x = NaN" "- NaN = NaN"
  by (cases x; simp add: minus_float32_def times_float32_def)+

lemma float32_infinities:
  "PlusInfinity + MinusInfinity = NaN" "MinusInfinity + PlusInfinity = NaN"
  "PlusInfinity - PlusInfinity = NaN" "MinusInfinity - MinusInfinity = NaN"
  "PlusInfinity - MinusInfinity = PlusInfinity" "MinusInfinity - PlusInfinity = MinusInfinity"
  by (simp_all add: minus_float32_def)

lemmas float32_unfold = float32_of_int_def float32_round_def round24_def bit_length.simps Let_def
  minus_float32_def times_float32_def divide_float32_def float32_of_ratio_def
  round_magnitude_def is_zero_def is_infinite_def zero_of_def infinity_of_def one_float32_def

text \<open>
  Products and quotients as the format has them: \<open>4097 * 4097 = 16785409\<close> is a tie
  and goes to the even \<open>16785408\<close>; \<open>1 / 3\<close> is \<open>11184811 * 2^-25\<close>; a division of
  a number other than zero by a zero is an infinity with the sign of both.
\<close>

lemma float32_times_divide_examples:
  "float32_of_int 4097 * float32_of_int 4097 = float32_of_int 16785408"
  "1 / float32_of_int 3 = Finite (11184811 * 2 ^ 124)"
  "(1 / float32_of_int 3) * float32_of_int 3 = 1"
  "1 / float32_of_int 0 = PlusInfinity"
  "1 / NegZero = MinusInfinity"
  "float32_of_int 0 / float32_of_int 0 = NaN"
  "Finite 1 * Finite (2 ^ 148) = Finite 0"
  "Finite 3 * Finite (2 ^ 148) = Finite 2"
  "Finite ((2 ^ 24 - 1) * 2 ^ 253) * float32_of_int 2 = PlusInfinity"
  by (simp_all add: float32_unfold)

section \<open>Inverse with floats\<close>

lemma float32_one_by_zero: "1 / float32_of_int 0 = PlusInfinity"
  by (simp add: float32_unfold)

lemma float32_K_inputs:
  "i < 4 \<Longrightarrow> j < 4 \<Longrightarrow> is_float32 (elem float32_K i j)" and "is_float32 float32_tolerance"
proof -
  show "is_float32 float32_tolerance"
    by (simp add: float32_tolerance_def round24_def bit_length.simps Let_def)
  assume "i < 4" and "j < 4"
  then have "i = 0 \<or> i = 1 \<or> i = 2 \<or> i = 3" and "j = 0 \<or> j = 1 \<or> j = 2 \<or> j = 3"
    by (simp_all only: index_below_4)
  then show "is_float32 (elem float32_K i j)"
    by (auto simp add: float32_K_def elem_Mat4 float32_of_small_int)
qed

text \<open>In exact arithmetic the determinant of the matrix is 60.\<close>

lemma exact_K_determinant: "determinant exact_K = 60"
  by (simp add: determinant_def exact_K_def Let_def elem_Mat4)

text \<open>
  With floats the minors formula gives 64 and passes the test for every tolerance below
  64, while the two halves of the divisor, \<open>dot(s, v)\<close> and \<open>dot(t, u)\<close>, both round
  to 1100311168 in magnitude and cancel.
\<close>

lemma float32_K_determinant: "determinant float32_K = float32_of_int 64"
  by (simp add: determinant_def float32_K_def elem_Mat4 whole_eval)

lemma float32_K_dots:
  "dot (cross (Vec3 (float32_of_int 55) (float32_of_int 31) (float32_of_int 111))
              (Vec3 (float32_of_int 250) (float32_of_int 246) (float32_of_int 162)))
       (vec3_sub (vec3_scale (Vec3 (float32_of_int 190) (float32_of_int 187) (float32_of_int 123))
                    (float32_of_int 118))
                 (vec3_scale (Vec3 (float32_of_int 21) (float32_of_int 96) (float32_of_int 273))
                    (float32_of_int 377)))
     = float32_of_int (- 1100311168)"
  "dot (cross (Vec3 (float32_of_int 190) (float32_of_int 187) (float32_of_int 123))
              (Vec3 (float32_of_int 21) (float32_of_int 96) (float32_of_int 273)))
       (vec3_sub (vec3_scale (Vec3 (float32_of_int 55) (float32_of_int 31) (float32_of_int 111))
                    (float32_of_int 496))
                 (vec3_scale (Vec3 (float32_of_int 250) (float32_of_int 246) (float32_of_int 162))
                    (float32_of_int 86)))
     = float32_of_int 1100311168"
  by (simp_all add: vec3_defs whole_eval)

lemma float32_K_divisor: "inverse_divisor float32_K = float32_of_int 0"
  by (simp add: inverse_divisor_def float32_K_def elem_Mat4 vec3_defs whole_eval)

lemma float32_64: "float32_of_int 64 = Finite (2 ^ 155)"
  by (simp add: whole_eval whole_def)

lemma float32_K_guard: "\<not> \<bar>determinant float32_K\<bar> \<le> float32_tolerance"
  by (simp add: float32_K_determinant float32_64 less_eq_float32_def float32_tolerance_def)

lemma float32_K_guard_any:
  "order_key tolerance < 2 ^ 155 \<Longrightarrow> \<not> \<bar>determinant float32_K\<bar> \<le> tolerance"
  by (simp add: float32_K_determinant float32_64 less_eq_float32_def)

lemma float32_K_inverse_with:
  "inverse_with PlusInfinity float32_K =
     Mat4 NaN NaN NaN NaN  NaN NaN NaN NaN  NaN NaN NaN NaN  NaN NaN NaN NaN"
  by (simp add: inverse_with_def float32_K_def elem_Mat4 vec3_defs whole_eval
      float32_NaN float32_infinities)

lemma float32_K_inverse:
  "inverse_mat4 float32_tolerance float32_K =
     Mat4 NaN NaN NaN NaN  NaN NaN NaN NaN  NaN NaN NaN NaN  NaN NaN NaN NaN"
  by (simp add: inverse_mat4_branches float32_K_guard float32_K_divisor float32_one_by_zero
      float32_K_inverse_with)

lemma mat4_times_NaN:
  "mat4_times M (Mat4 NaN NaN NaN NaN  NaN NaN NaN NaN  NaN NaN NaN NaN  NaN NaN NaN NaN) =
     Mat4 NaN NaN NaN NaN  NaN NaN NaN NaN  NaN NaN NaN NaN  NaN NaN NaN NaN"
  by (simp add: mat4_times_sums product_sum_unrolled elem_Mat4 float32_NaN)

text \<open>
  C9. The claim: in \<open>inverse(M)\<close>, whenever the branch behind the tolerance test is
  reached, the divisor \<open>dot(s, v) + dot(t, u)\<close> equals \<open>determinant(M)\<close> in exact
  arithmetic and is therefore nonzero, so the division \<open>1 / (dot(s, v) + dot(t, u))\<close>
  never divides by zero. For the float matrix \<open>float32_K\<close> and the tolerance
  \<open>0.00001f\<close> the test computes the determinant 64 and lets the matrix through, the
  divisor is \<open>- 1100311168 + 1100311168 = 0\<close>, and \<open>invDet\<close> is \<open>1 / 0\<close>, an
  infinity. The elements of the matrix and the tolerance are values of the format
  (lemma \<open>float32_K_inputs\<close>).
\<close>

theorem inverse_divisor_zero_float32:
  "\<not> \<bar>determinant float32_K\<bar> \<le> float32_tolerance
 \<and> inverse_mat4 float32_tolerance float32_K =
     inverse_with (1 / inverse_divisor float32_K) float32_K
 \<and> determinant float32_K = float32_of_int 64
 \<and> inverse_divisor float32_K = float32_of_int 0
 \<and> 1 / inverse_divisor float32_K = PlusInfinity"
proof -
  note float32_K_guard
  moreover from float32_K_guard
  have "inverse_mat4 float32_tolerance float32_K =
      inverse_with (1 / inverse_divisor float32_K) float32_K"
    by (simp add: inverse_mat4_branches)
  moreover note float32_K_determinant float32_K_divisor
  moreover have "1 / inverse_divisor float32_K = PlusInfinity"
    by (simp only: float32_K_divisor float32_one_by_zero)
  ultimately show ?thesis by (intro conjI)
qed

text \<open>
  C2. The claim: for every matrix \<open>M\<close> with \<open>canBeInverse(M) == true\<close> the product
  \<open>M * inverse(M)\<close> equals the identity matrix, exactly over exact arithmetic and
  within epsilon component-wise over floats. For the float matrix \<open>float32_K\<close> and the
  tolerance \<open>0.00001f\<close>, \<open>canBeInverse\<close> is true, and every element of
  \<open>inverse(M)\<close> and of \<open>M * inverse(M)\<close> is NaN, which is within no epsilon of 0 or 1.
\<close>

theorem inverse_law_float32:
  "canBeInverse float32_tolerance float32_K
 \<and> inverse_mat4 float32_tolerance float32_K =
     Mat4 NaN NaN NaN NaN  NaN NaN NaN NaN  NaN NaN NaN NaN  NaN NaN NaN NaN
 \<and> mat4_times float32_K (inverse_mat4 float32_tolerance float32_K) =
     Mat4 NaN NaN NaN NaN  NaN NaN NaN NaN  NaN NaN NaN NaN  NaN NaN NaN NaN"
  by (simp add: canBeInverse_def float32_K_guard float32_K_inverse mat4_times_NaN)

section \<open>Translation\<close>

lemma translate_Mat4:
  "translate (Mat4 a00 a01 a02 a03 a10 a11 a12 a13 a20 a21 a22 a23 a30 a31 a32 a33) t =
     Mat4 a00 a01 a02 a03  a10 a11 a12 a13  a20 a21 a22 a23
          (a30 + x3 t) (a31 + y3 t) (a32 + z3 t) a33"
  by (simp add: translate_def Let_def GetRow_Mat4 mat4_rows_def)

lemma translate_twice_Mat4:
  "translate (translate
      (Mat4 a00 a01 a02 a03 a10 a11 a12 a13 a20 a21 a22 a23 a30 a31 a32 a33) t1) t2 =
     Mat4 a00 a01 a02 a03  a10 a11 a12 a13  a20 a21 a22 a23
          (a30 + x3 t1 + x3 t2) (a31 + y3 t1 + y3 t2) (a32 + z3 t1 + z3 t2) a33"
  by (simp add: translate_Mat4)

lemma translate_sum_Mat4:
  "translate (Mat4 a00 a01 a02 a03 a10 a11 a12 a13 a20 a21 a22 a23 a30 a31 a32 a33)
      (vec3_add t1 t2) =
     Mat4 a00 a01 a02 a03  a10 a11 a12 a13  a20 a21 a22 a23
          (a30 + (x3 t1 + x3 t2)) (a31 + (y3 t1 + y3 t2)) (a32 + (z3 t1 + z3 t2)) a33"
  by (simp add: translate_Mat4 vec3_add_def)

text \<open>Where addition is associative, as in exact arithmetic, the two results are equal.\<close>

lemma translate_translate_exact:
  fixes mat :: "'a::semigroup_add mat4"
  shows "translate (translate mat t1) t2 = translate mat (vec3_add t1 t2)"
  by (cases mat) (simp add: translate_twice_Mat4 translate_sum_Mat4 add.assoc)

text \<open>
  C7. The claim: for every matrix \<open>M\<close> and translation vectors \<open>t1\<close>, \<open>t2\<close>,
  \<open>translate(translate(M, t1), t2) == translate(M, t1 + t2)\<close>, with rows 0-2 and the
  \<open>w\<close> of row 3 unchanged. With floats the two sides are added in different groupings,
  \<open>(M(3,k) + t1.k) + t2.k\<close> against \<open>M(3,k) + (t1.k + t2.k)\<close>, and each addition
  rounds. For the float matrix with row 3 = (1, 0, 0, 1) and the translations
  \<open>t1 = (2^25, 0, 0)\<close>, \<open>t2 = (- 2^25, 0, 0)\<close> the left side has 0 at (3,0), since
  \<open>1 + 2^25\<close> rounds to \<open>2^25\<close>, and the right side has 1. All the numbers involved
  are values of the format (lemma \<open>float32_inputs\<close>).
\<close>

theorem translate_twice_float32:
  "elem (translate (translate float32_matrix float32_t1) float32_t2) 3 0 = float32_of_int 0
 \<and> elem (translate float32_matrix (vec3_add float32_t1 float32_t2)) 3 0 = float32_of_int 1
 \<and> translate (translate float32_matrix float32_t1) float32_t2
     \<noteq> translate float32_matrix (vec3_add float32_t1 float32_t2)"
proof -
  have twice: "translate (translate float32_matrix float32_t1) float32_t2 =
     Mat4 (float32_of_int 1) (float32_of_int 0) (float32_of_int 0) (float32_of_int 0)
          (float32_of_int 0) (float32_of_int 1) (float32_of_int 0) (float32_of_int 0)
          (float32_of_int 0) (float32_of_int 0) (float32_of_int 1) (float32_of_int 0)
          (float32_of_int 0) (float32_of_int 0) (float32_of_int 0) (float32_of_int 1)"
    by (simp add: float32_matrix_def float32_t1_def float32_t2_def translate_twice_Mat4
        float32_sums)
  have once: "translate float32_matrix (vec3_add float32_t1 float32_t2) =
     Mat4 (float32_of_int 1) (float32_of_int 0) (float32_of_int 0) (float32_of_int 0)
          (float32_of_int 0) (float32_of_int 1) (float32_of_int 0) (float32_of_int 0)
          (float32_of_int 0) (float32_of_int 0) (float32_of_int 1) (float32_of_int 0)
          (float32_of_int 1) (float32_of_int 0) (float32_of_int 0) (float32_of_int 1)"
    by (simp add: float32_matrix_def float32_t1_def float32_t2_def translate_sum_Mat4
        float32_sums)
  have "float32_of_int 0 \<noteq> float32_of_int 1"
    by (simp add: float32_of_int_values)
  then show ?thesis
    unfolding twice once by (simp add: elem_Mat4)
qed

text \<open>
  C7, as amended. For every matrix \<open>M\<close> and translation vectors \<open>t1\<close>, \<open>t2\<close>, both
  \<open>translate(translate(M, t1), t2)\<close> and \<open>translate(M, t1 + t2)\<close> have rows 0-2 of
  \<open>M\<close> and the \<open>w\<close> of its row 3; the \<open>x\<close>, \<open>y\<close>, \<open>z\<close> of their row 3 are
  \<open>(M(3,k) + t1.k) + t2.k\<close> and \<open>M(3,k) + (t1.k + t2.k)\<close>. The two results are
  equal exactly when these sums agree for \<open>x\<close>, \<open>y\<close> and \<open>z\<close>: always in exact
  arithmetic (lemma \<open>translate_translate_exact\<close>), with floats when rounding does not
  separate the two groupings. The statement is for every scalar type.
\<close>

theorem translate_twice:
  fixes mat :: "'a::plus mat4"
  shows "GetRow (translate (translate mat t1) t2) 0 = GetRow mat 0
       \<and> GetRow (translate (translate mat t1) t2) 1 = GetRow mat 1
       \<and> GetRow (translate (translate mat t1) t2) 2 = GetRow mat 2
       \<and> GetRow (translate (translate mat t1) t2) 3 =
           Vec4 ((elem mat 3 0 + x3 t1) + x3 t2) ((elem mat 3 1 + y3 t1) + y3 t2)
                ((elem mat 3 2 + z3 t1) + z3 t2) (elem mat 3 3)
       \<and> GetRow (translate mat (vec3_add t1 t2)) 0 = GetRow mat 0
       \<and> GetRow (translate mat (vec3_add t1 t2)) 1 = GetRow mat 1
       \<and> GetRow (translate mat (vec3_add t1 t2)) 2 = GetRow mat 2
       \<and> GetRow (translate mat (vec3_add t1 t2)) 3 =
           Vec4 (elem mat 3 0 + (x3 t1 + x3 t2)) (elem mat 3 1 + (y3 t1 + y3 t2))
                (elem mat 3 2 + (z3 t1 + z3 t2)) (elem mat 3 3)
       \<and> (translate (translate mat t1) t2 = translate mat (vec3_add t1 t2)) =
           ((elem mat 3 0 + x3 t1) + x3 t2 = elem mat 3 0 + (x3 t1 + x3 t2)
          \<and> (elem mat 3 1 + y3 t1) + y3 t2 = elem mat 3 1 + (y3 t1 + y3 t2)
          \<and> (elem mat 3 2 + z3 t1) + z3 t2 = elem mat 3 2 + (z3 t1 + z3 t2))"
proof (cases mat)
  case (Mat4 a00 a01 a02 a03 a10 a11 a12 a13 a20 a21 a22 a23 a30 a31 a32 a33)
  show ?thesis
    unfolding Mat4
    by (simp add: translate_twice_Mat4 translate_sum_Mat4 GetRow_Mat4 elem_Mat4)
qed

end
